theory Spec2Isabelle
  imports Complex_Main "HOL-Library.Word"
begin

unbundle bit_operations_syntax

section \<open>Python values\<close>

text \<open>
  A Python \<open>str\<close> is a sequence of Unicode code points (numbers below \<open>0x110000\<close>,
  lone surrogates included); \<open>bytes\<close> is a sequence of octets; \<open>int\<close> is unbounded.
  Exceptions are values: \<open>Inl\<close> of the exception raised.
\<close>

type_synonym str = "nat list"
type_synonym byte = "8 word"
type_synonym bytes = "byte list"

datatype error =
    UnicodeEncodeError
  | ValueError
  | Binascii_Error
  | FPDF_Error
  | SystemExit int

text \<open>A source literal, as the code points of its (ASCII) characters.\<close>

definition lit :: "string \<Rightarrow> str" where
  "lit s = map of_char s"

text \<open>\<open>s.encode('utf-8')\<close>, with the default strict error handling: a surrogate code
  point (\<open>U+D800\<close> to \<open>U+DFFF\<close>) raises \<open>UnicodeEncodeError\<close>.\<close>

definition is_surrogate :: "nat \<Rightarrow> bool" where
  "is_surrogate c = (55296 \<le> c \<and> c < 57344)"

definition utf8_char :: "nat \<Rightarrow> error + bytes" where
  "utf8_char c =
     (if c < 128 then Inr [of_nat c]
      else if c < 2048 then Inr [of_nat (192 + c div 64), of_nat (128 + c mod 64)]
      else if is_surrogate c then Inl UnicodeEncodeError
      else if c < 65536 then
        Inr [of_nat (224 + c div 4096), of_nat (128 + c div 64 mod 64), of_nat (128 + c mod 64)]
      else
        Inr [of_nat (240 + c div 262144 mod 8), of_nat (128 + c div 4096 mod 64),
             of_nat (128 + c div 64 mod 64), of_nat (128 + c mod 64)])"

fun encode_utf8 :: "str \<Rightarrow> error + bytes" where
  "encode_utf8 [] = Inr []"
| "encode_utf8 (c # cs) =
     (case utf8_char c of
        Inl e \<Rightarrow> Inl e
      | Inr b \<Rightarrow> (case encode_utf8 cs of Inl e \<Rightarrow> Inl e | Inr bs \<Rightarrow> Inr (b @ bs)))"

definition surrogate_free :: "str \<Rightarrow> bool" where
  "surrogate_free s = list_all (\<lambda>c. \<not> is_surrogate c) s"

text \<open>\<open>str(n)\<close> and \<open>f"{n}"\<close> for an \<open>int\<close>: the decimal digits, after a minus sign
  when \<open>n\<close> is negative. (The interpreter's configurable limit on the number of
  digits of such a conversion is taken as switched off.)\<close>

fun digits :: "nat \<Rightarrow> str" where
  "digits n = (if n < 10 then [48 + n] else digits (n div 10) @ [48 + n mod 10])"

declare digits.simps [simp del]

definition str_of_int :: "int \<Rightarrow> str" where
  "str_of_int n = (if n < 0 then 45 # digits (nat (- n)) else digits (nat n))"

text \<open>\<open>bytes.hex()\<close> and \<open>hexdigest()\<close>: two lowercase hexadecimal digits per octet.\<close>

definition hexdigit :: "nat \<Rightarrow> nat" where
  "hexdigit n = (if n < 10 then 48 + n else 87 + n)"

definition hexlify :: "bytes \<Rightarrow> str" where
  "hexlify bs = concat (map (\<lambda>b. [hexdigit (unat b div 16), hexdigit (unat b mod 16)]) bs)"

text \<open>\<open>binascii.unhexlify\<close> on a \<open>str\<close>: \<open>ValueError\<close> when it is not ASCII,
  \<open>binascii.Error\<close> on an odd length or on a character that is no hexadecimal digit
  (both cases of letters are digits).\<close>

definition hexval :: "nat \<Rightarrow> nat option" where
  "hexval c =
     (if 48 \<le> c \<and> c \<le> 57 then Some (c - 48)
      else if 97 \<le> c \<and> c \<le> 102 then Some (c - 87)
      else if 65 \<le> c \<and> c \<le> 70 then Some (c - 55)
      else None)"

fun unhex_pairs :: "str \<Rightarrow> error + bytes" where
  "unhex_pairs (h # l # cs) =
     (case hexval h of
        None \<Rightarrow> Inl Binascii_Error
      | Some a \<Rightarrow>
          (case hexval l of
             None \<Rightarrow> Inl Binascii_Error
           | Some b \<Rightarrow>
               (case unhex_pairs cs of
                  Inl e \<Rightarrow> Inl e
                | Inr bs \<Rightarrow> Inr (of_nat (16 * a + b) # bs))))"
| "unhex_pairs cs = Inr []"

definition unhexlify :: "str \<Rightarrow> error + bytes" where
  "unhexlify s =
     (if list_ex (\<lambda>c. 128 \<le> c) s then Inl ValueError
      else if odd (length s) then Inl Binascii_Error
      else unhex_pairs s)"

text \<open>\<open>int.from_bytes(bs, byteorder='big')\<close>.\<close>

definition int_from_bytes_big :: "bytes \<Rightarrow> int" where
  "int_from_bytes_big bs = foldl (\<lambda>acc b. acc * 256 + uint b) 0 bs"


section \<open>SHA-256 and HMAC (hashlib, hmac)\<close>

text \<open>
  \<open>hashlib.sha256\<close> is the interpreter's SHA-256 of FIPS 180-4. Its 32-bit words are
  natural numbers here, with the wrap-around of every addition written out; a rotation
  to the right by \<open>n\<close> moves the low \<open>n\<close> bits to the top. The round
  constants and the initial state are those of the standard, in decimal.
\<close>

type_synonym u32 = nat

definition add32 :: "u32 \<Rightarrow> u32 \<Rightarrow> u32" where
  "add32 x y = (x + y) mod 4294967296"

definition rotr :: "nat \<Rightarrow> u32 \<Rightarrow> u32" where
  "rotr n x = drop_bit n x + push_bit (32 - n) (take_bit n x)"

definition Ch :: "u32 \<Rightarrow> u32 \<Rightarrow> u32 \<Rightarrow> u32" where
  "Ch x y z = (x AND y) XOR ((4294967295 - x) AND z)"

definition Maj :: "u32 \<Rightarrow> u32 \<Rightarrow> u32 \<Rightarrow> u32" where
  "Maj x y z = (x AND y) XOR (x AND z) XOR (y AND z)"

definition bsig0 :: "u32 \<Rightarrow> u32" where
  "bsig0 x = rotr 2 x XOR rotr 13 x XOR rotr 22 x"

definition bsig1 :: "u32 \<Rightarrow> u32" where
  "bsig1 x = rotr 6 x XOR rotr 11 x XOR rotr 25 x"

definition ssig0 :: "u32 \<Rightarrow> u32" where
  "ssig0 x = rotr 7 x XOR rotr 18 x XOR drop_bit 3 x"

definition ssig1 :: "u32 \<Rightarrow> u32" where
  "ssig1 x = rotr 17 x XOR rotr 19 x XOR drop_bit 10 x"

definition K256 :: "u32 list" where
  "K256 =
     [1116352408, 1899447441, 3049323471, 3921009573, 961987163, 1508970993,
      2453635748, 2870763221, 3624381080, 310598401, 607225278, 1426881987,
      1925078388, 2162078206, 2614888103, 3248222580, 3835390401, 4022224774,
      264347078, 604807628, 770255983, 1249150122, 1555081692, 1996064986,
      2554220882, 2821834349, 2952996808, 3210313671, 3336571891, 3584528711,
      113926993, 338241895, 666307205, 773529912, 1294757372, 1396182291,
      1695183700, 1986661051, 2177026350, 2456956037, 2730485921, 2820302411,
      3259730800, 3345764771, 3516065817, 3600352804, 4094571909, 275423344,
      430227734, 506948616, 659060556, 883997877, 958139571, 1322822218,
      1537002063, 1747873779, 1955562222, 2024104815, 2227730452, 2361852424,
      2428436474, 2756734187, 3204031479, 3329325298]"

text \<open>Big-endian words of a block, and the octets of a word.\<close>

fun words32 :: "bytes \<Rightarrow> u32 list" where
  "words32 (a # b # c # d # bs) =
     (((unat a * 256 + unat b) * 256 + unat c) * 256 + unat d) # words32 bs"
| "words32 bs = []"

definition u32_bytes :: "u32 \<Rightarrow> bytes" where
  "u32_bytes w = [of_nat (w div 16777216 mod 256), of_nat (w div 65536 mod 256),
                  of_nat (w div 256 mod 256), of_nat (w mod 256)]"

definition u64_bytes :: "nat \<Rightarrow> bytes" where
  "u64_bytes n = u32_bytes (n div 4294967296 mod 4294967296) @ u32_bytes (n mod 4294967296)"

text \<open>Padding: the octet \<open>0x80\<close>, zeros up to 56 modulo 64, the bit length on 64 bits.\<close>

fun zeros :: "nat \<Rightarrow> bytes" where
  "zeros 0 = []"
| "zeros (Suc n) = 0 # zeros n"

definition sha_pad :: "bytes \<Rightarrow> bytes" where
  "sha_pad m = m @ [128] @ zeros ((119 - length m mod 64) mod 64) @ u64_bytes (8 * length m)"

fun blocks64 :: "bytes \<Rightarrow> bytes list" where
  "blocks64 [] = []"
| "blocks64 (b # bs) = take 64 (b # bs) # blocks64 (drop 63 bs)"

type_synonym sha_state = "u32 \<times> u32 \<times> u32 \<times> u32 \<times> u32 \<times> u32 \<times> u32 \<times> u32"

fun round256 :: "sha_state \<Rightarrow> u32 \<Rightarrow> u32 \<Rightarrow> sha_state" where
  "round256 (a, b, c, d, e, f, g, h) k w =
     (let t1 = add32 (add32 (add32 (add32 h (bsig1 e)) (Ch e f g)) k) w;
          t2 = add32 (bsig0 a) (Maj a b c)
      in (add32 t1 t2, a, b, c, add32 d t1, e, f, g))"

text \<open>The message schedule as a window of sixteen words: round \<open>t\<close> uses the head,
  and \<open>W\<^sub>t\<^sub>+\<^sub>1\<^sub>6\<close> enters at the end.\<close>

definition next_word :: "u32 list \<Rightarrow> u32" where
  "next_word w = add32 (add32 (add32 (ssig1 (w ! 14)) (w ! 9)) (ssig0 (w ! 1))) (w ! 0)"

fun rounds :: "u32 list \<Rightarrow> u32 list \<Rightarrow> sha_state \<Rightarrow> sha_state" where
  "rounds [] w s = s"
| "rounds (k # ks) w s = rounds ks (tl w @ [next_word w]) (round256 s k (hd w))"

fun add_state :: "sha_state \<Rightarrow> sha_state \<Rightarrow> sha_state" where
  "add_state (a, b, c, d, e, f, g, h) (a', b', c', d', e', f', g', h') =
     (add32 a a', add32 b b', add32 c c', add32 d d',
      add32 e e', add32 f f', add32 g g', add32 h h')"

definition compress :: "sha_state \<Rightarrow> bytes \<Rightarrow> sha_state" where
  "compress s blk = add_state s (rounds K256 (words32 blk) s)"

definition sha_init :: sha_state where
  "sha_init =
     (1779033703, 3144134277, 1013904242, 2773480762,
      1359893119, 2600822924, 528734635, 1541459225)"

fun state_bytes :: "sha_state \<Rightarrow> bytes" where
  "state_bytes (a, b, c, d, e, f, g, h) =
     u32_bytes a @ u32_bytes b @ u32_bytes c @ u32_bytes d @
     u32_bytes e @ u32_bytes f @ u32_bytes g @ u32_bytes h"

definition sha256 :: "bytes \<Rightarrow> bytes" where
  "sha256 m = state_bytes (foldl compress sha_init (blocks64 (sha_pad m)))"

text \<open>\<open>hmac.new(key, msg, hashlib.sha256).digest()\<close> (RFC 2104): a key longer than the
  block of 64 octets is hashed first, then padded with zeros to the block.\<close>

definition hmac_sha256 :: "bytes \<Rightarrow> bytes \<Rightarrow> bytes" where
  "hmac_sha256 key msg =
     (let k0 = (if 64 < length key then sha256 key else key);
          k = k0 @ zeros (64 - length k0)
      in sha256 (map (\<lambda>b. b XOR 92) k @ sha256 (map (\<lambda>b. b XOR 54) k @ msg)))"


section \<open>The round verifier (anu.py, lines 29 to 100)\<close>



definition sha256_hex :: "str \<Rightarrow> error + str" where
  "sha256_hex s =
     (case encode_utf8 s of Inl e \<Rightarrow> Inl e | Inr b \<Rightarrow> Inr (hexlify (sha256 b)))"

definition hmac_sha256_hex :: "str \<Rightarrow> str \<Rightarrow> error + str" where
  "hmac_sha256_hex key message =
     (case encode_utf8 key of
        Inl e \<Rightarrow> Inl e
      | Inr kb \<Rightarrow>
          (case encode_utf8 message of
             Inl e \<Rightarrow> Inl e
           | Inr mb \<Rightarrow> Inr (hexlify (hmac_sha256 kb mb))))"

text \<open>
  \<open>roll_from_seeds\<close> returns \<open>roll100 / 100.0\<close>, a Python float. The model returns the
  quotient itself, the rational number \<open>roll100 / 100\<close>; the float is the binary64
  number nearest to it, and rounding is not modelled.
\<close>

definition roll_from_seeds :: "str \<Rightarrow> str \<Rightarrow> int \<Rightarrow> error + rat" where
  "roll_from_seeds server_seed client_seed nonce =
     (let message = client_seed @ lit '':'' @ str_of_int nonce
      in case hmac_sha256_hex server_seed message of
           Inl e \<Rightarrow> Inl e
         | Inr hmac_hex \<Rightarrow>
             (case unhexlify hmac_hex of
                Inl e \<Rightarrow> Inl e
              | Inr hmac_bytes \<Rightarrow>
                  (let part = take 8 hmac_bytes;
                       val = int_from_bytes_big part;
                       roll100 = val mod 10000;
                       roll = of_int roll100 / 100
                   in Inr roll)))"

definition compute_commitment :: "str \<Rightarrow> error + str" where
  "compute_commitment server_seed = sha256_hex server_seed"











text \<open>The parsed command line: \<open>--server\<close> (absent by default), \<open>--nonce\<close> (any
  \<open>int\<close>, 1 by default), \<open>--client\<close> and \<open>--published\<close>.\<close>

record args =
  server :: "str option"
  nonce :: int
  client :: str
  published :: str






section \<open>The report scripts that follow in the same file (lines 101 to 256)\<close>




section \<open>Notions of the specification\<close>

text \<open>A lowercase hexadecimal digit: \<open>0\<close> to \<open>9\<close>, \<open>a\<close> to \<open>f\<close>.\<close>

definition is_lower_hex :: "nat \<Rightarrow> bool" where
  "is_lower_hex c = (48 \<le> c \<and> c \<le> 57 \<or> 97 \<le> c \<and> c \<le> 102)"







section \<open>Octets as hexadecimal text\<close>

lemma length_u32_bytes: "length (u32_bytes w) = 4"
  by (simp add: u32_bytes_def)

lemma length_state_bytes: "length (state_bytes s) = 32"
  by (cases s rule: state_bytes.cases) (simp add: length_u32_bytes)

lemma length_sha256: "length (sha256 m) = 32"
  by (simp add: sha256_def length_state_bytes)

lemma length_hexlify: "length (hexlify bs) = 2 * length bs"
  by (induction bs) (simp_all add: hexlify_def)

lemma hexlify_Nil: "hexlify [] = []"
  by (simp add: hexlify_def)

lemma hexlify_Cons:
  "hexlify (b # bs) = hexdigit (unat b div 16) # hexdigit (unat b mod 16) # hexlify bs"
  by (simp add: hexlify_def)

lemma unat_byte_div16: "unat (b :: byte) div 16 < 16"
proof -
  have "unat b < 2 ^ LENGTH(8)" by (rule unsigned_less)
  then have "unat b < 256" by simp
  then show ?thesis by simp
qed

lemma is_lower_hex_hexdigit: "n < 16 \<Longrightarrow> is_lower_hex (hexdigit n)"
  by (auto simp: is_lower_hex_def hexdigit_def)

lemma hexlify_lower_hex: "list_all is_lower_hex (hexlify bs)"
  by (induction bs) (simp_all add: hexlify_Nil hexlify_Cons is_lower_hex_hexdigit unat_byte_div16)

lemma hexval_hexdigit: "n < 16 \<Longrightarrow> hexval (hexdigit n) = Some n"
  by (auto simp: hexval_def hexdigit_def)

lemma byte_of_nibbles: "(of_nat (16 * (unat b div 16) + unat b mod 16) :: byte) = b"
  by simp

lemma unhex_pairs_hexlify: "unhex_pairs (hexlify bs) = Inr bs"
  by (induction bs)
     (simp_all add: hexlify_Nil hexlify_Cons hexval_hexdigit unat_byte_div16 byte_of_nibbles)

lemma hexdigit_ascii: "n < 16 \<Longrightarrow> hexdigit n < 128"
  by (simp add: hexdigit_def)

lemma hexlify_ascii: "\<not> list_ex (\<lambda>c. 128 \<le> c) (hexlify bs)"
  by (induction bs)
     (simp_all add: hexlify_Nil hexlify_Cons hexdigit_ascii unat_byte_div16 not_le)

lemma unhexlify_hexlify: "unhexlify (hexlify bs) = Inr bs"
  by (simp add: unhexlify_def hexlify_ascii length_hexlify unhex_pairs_hexlify)


section \<open>UTF-8 encoding and decimal strings\<close>

lemma utf8_char_surrogate: "is_surrogate c \<Longrightarrow> utf8_char c = Inl UnicodeEncodeError"
  by (simp add: utf8_char_def is_surrogate_def)

lemma utf8_char_scalar: "\<not> is_surrogate c \<Longrightarrow> \<exists>b. utf8_char c = Inr b"
  by (simp add: utf8_char_def)

lemma encode_utf8_total: "surrogate_free s \<Longrightarrow> \<exists>b. encode_utf8 s = Inr b"
proof (induction s)
  case Nil
  show ?case by simp
next
  case (Cons c cs)
  from Cons.prems have c: "\<not> is_surrogate c" and cs: "surrogate_free cs"
    by (simp_all add: surrogate_free_def)
  from utf8_char_scalar [OF c] obtain b where b: "utf8_char c = Inr b" ..
  from Cons.IH [OF cs] obtain bs where bs: "encode_utf8 cs = Inr bs" ..
  show ?case by (simp add: b bs)
qed

lemma encode_utf8_raises: "\<not> surrogate_free s \<Longrightarrow> encode_utf8 s = Inl UnicodeEncodeError"
proof (induction s)
  case Nil
  then show ?case by (simp add: surrogate_free_def)
next
  case (Cons c cs)
  show ?case
  proof (cases "is_surrogate c")
    case True
    then show ?thesis by (simp add: utf8_char_surrogate)
  next
    case False
    with Cons.prems have "\<not> surrogate_free cs" by (simp add: surrogate_free_def)
    then have cs: "encode_utf8 cs = Inl UnicodeEncodeError" by (rule Cons.IH)
    from utf8_char_scalar [OF False] obtain b where "utf8_char c = Inr b" ..
    then show ?thesis by (simp add: cs)
  qed
qed

lemma surrogate_free_append: "surrogate_free (a @ b) = (surrogate_free a \<and> surrogate_free b)"
  by (simp add: surrogate_free_def)

lemma surrogate_free_digits: "surrogate_free (digits n)"
proof (induction n rule: digits.induct)
  case (1 n)
  show ?case
  proof (cases "n < 10")
    case True
    then show ?thesis by (simp add: digits.simps [of n] surrogate_free_def is_surrogate_def)
  next
    case False
    have "n mod 10 < 10" by simp
    then have "\<not> is_surrogate (48 + n mod 10)" by (simp add: is_surrogate_def)
    with False "1.IH" show ?thesis
      by (simp add: digits.simps [of n] surrogate_free_def)
  qed
qed

lemma surrogate_free_str_of_int: "surrogate_free (str_of_int n)"
  using surrogate_free_digits [of "nat n"] surrogate_free_digits [of "nat (- n)"]
  by (simp add: str_of_int_def surrogate_free_def is_surrogate_def)

lemma surrogate_free_colon: "surrogate_free (lit '':'')"
  by (simp add: lit_def surrogate_free_def is_surrogate_def)

lemma surrogate_free_message:
  "surrogate_free (c @ lit '':'' @ str_of_int n) = surrogate_free c"
  by (simp add: surrogate_free_append surrogate_free_colon surrogate_free_str_of_int)


section \<open>Reading octets as a number\<close>



section \<open>Evaluating the hashes\<close>

text \<open>
  Equations for evaluating SHA-256 by rewriting: the sum of two 32-bit words without a
  division, and the HMAC of a key that fits a block. The first test is the vector
  \<open>abc\<close> of FIPS 180-4; the others are the hashes of the scenario of the specification
  (section 8): server seed \<open>abc123\<close>, client seed \<open>pxfv6pdY0X\<close>, at the nonces 1, -1
  and 0.
\<close>

lemma add32_eval:
  "x < 4294967296 \<Longrightarrow> y < 4294967296 \<Longrightarrow>
   add32 x y = (if x + y < 4294967296 then x + y else x + y - 4294967296)"
  by (simp add: add32_def mod_if le_mod_geq)

lemmas sha_eval = sha256_def sha_pad_def u64_bytes_def u32_bytes_def sha_init_def compress_def
  K256_def next_word_def add32_eval rotr_def Ch_def Maj_def bsig0_def bsig1_def ssig0_def ssig1_def Let_def

lemma zeros_numeral: "zeros (numeral k) = 0 # zeros (pred_numeral k)"
  by (simp add: numeral_eq_Suc)

lemma hmac_sha256_short:
  "length key \<le> 64 \<Longrightarrow>
   hmac_sha256 key msg =
     sha256 (map (\<lambda>b. b XOR 92) (key @ zeros (64 - length key))
       @ sha256 (map (\<lambda>b. b XOR 54) (key @ zeros (64 - length key)) @ msg))"
  by (simp add: hmac_sha256_def Let_def)

lemma sha256_abc: "sha256 [97, 98, 99] = [186, 120, 22, 191, 143, 1, 207, 234, 65, 65, 64, 222, 93, 174, 34, 35, 176, 3, 97, 163, 150, 23, 122, 156, 180, 16, 255, 97, 242, 0, 21, 173]"
  by (simp add: sha_eval zeros_numeral)

lemma sha256_abc123: "sha256 [97, 98, 99, 49, 50, 51] = [108, 161, 61, 82, 202, 112, 200, 131, 224, 240, 187, 16, 30, 66, 90, 137, 232, 98, 77, 229, 29, 178, 210, 57, 37, 147, 175, 106, 132, 17, 128, 144]"
  by (simp add: sha_eval zeros_numeral)




lemma hmac_nonce_0:
  "hmac_sha256 [97, 98, 99, 49, 50, 51] [112, 120, 102, 118, 54, 112, 100, 89, 48, 88, 58, 48] = [44, 63, 186, 76, 169, 154, 187, 245, 162, 133, 14, 64, 62, 173, 80, 235, 196, 187, 71, 31, 102, 86, 141, 44, 248, 227, 54, 254, 206, 40, 142, 187]"
  by (simp add: hmac_sha256_short sha_eval zeros_numeral)


section \<open>The roll and the verifier\<close>


lemma compute_commitment_Inr:
  "encode_utf8 s = Inr b \<Longrightarrow> compute_commitment s = Inr (hexlify (sha256 b))"
  by (simp add: compute_commitment_def sha256_hex_def)



lemma roll_from_seeds_Inr:
  assumes "encode_utf8 s = Inr kb"
    and "encode_utf8 (c @ lit '':'' @ str_of_int n) = Inr mb"
  shows "roll_from_seeds s c n =
           Inr (of_int (int_from_bytes_big (take 8 (hmac_sha256 kb mb)) mod 10000) / 100)"
  by (simp add: roll_from_seeds_def hmac_sha256_hex_def assms unhexlify_hexlify Let_def)

lemma roll_from_seeds_Inl:
  assumes "\<not> surrogate_free s \<or> \<not> surrogate_free c"
  shows "roll_from_seeds s c n = Inl UnicodeEncodeError"
proof (cases "surrogate_free s")
  case False
  then show ?thesis
    by (simp add: roll_from_seeds_def hmac_sha256_hex_def encode_utf8_raises Let_def)
next
  case True
  with assms have "\<not> surrogate_free (c @ lit '':'' @ str_of_int n)"
    by (simp add: surrogate_free_message)
  then have m: "encode_utf8 (c @ lit '':'' @ str_of_int n) = Inl UnicodeEncodeError"
    by (rule encode_utf8_raises)
  from encode_utf8_total [OF True] obtain kb where "encode_utf8 s = Inr kb" ..
  then show ?thesis
    by (simp add: roll_from_seeds_def hmac_sha256_hex_def m Let_def)
qed

lemma roll_from_seeds_total:
  assumes "surrogate_free s" and "surrogate_free c"
  shows "\<exists>kb mb. encode_utf8 s = Inr kb \<and> encode_utf8 (c @ lit '':'' @ str_of_int n) = Inr mb \<and>
           roll_from_seeds s c n =
             Inr (of_int (int_from_bytes_big (take 8 (hmac_sha256 kb mb)) mod 10000) / 100)"
proof -
  from encode_utf8_total [OF assms(1)] obtain kb where kb: "encode_utf8 s = Inr kb" ..
  from assms(2) have "surrogate_free (c @ lit '':'' @ str_of_int n)"
    by (simp add: surrogate_free_message)
  from encode_utf8_total [OF this] obtain mb
    where mb: "encode_utf8 (c @ lit '':'' @ str_of_int n) = Inr mb" ..
  from roll_from_seeds_Inr [OF kb mb] kb mb show ?thesis by blast
qed

lemma hundredths_range:
  fixes v :: int
  shows "0 \<le> (of_int (v mod 10000) / 100 :: rat) \<and> (of_int (v mod 10000) / 100 :: rat) \<le> 9999 / 100"
proof -
  have "0 \<le> v mod 10000" and u: "v mod 10000 \<le> 9999"
    by simp_all
  then have l: "(0 :: rat) \<le> of_int (v mod 10000)"
    by simp
  from u have "(of_int (v mod 10000) :: rat) \<le> of_int 9999"
    by (simp only: of_int_le_iff)
  then have "(of_int (v mod 10000) :: rat) \<le> 9999"
    by simp
  with l show ?thesis by simp
qed















section \<open>The scenario of the specification\<close>

lemma encode_abc123: "encode_utf8 (lit ''abc123'') = Inr [97, 98, 99, 49, 50, 51]"
  by (simp add: lit_def utf8_char_def)

lemma surrogate_free_abc123: "surrogate_free (lit ''abc123'')"
  by (simp add: lit_def surrogate_free_def is_surrogate_def)

lemma surrogate_free_client: "surrogate_free (lit ''pxfv6pdY0X'')"
  by (simp add: lit_def surrogate_free_def is_surrogate_def)

lemma commitment_abc123:
  "compute_commitment (lit ''abc123'') =
     Inr (lit ''6ca13d52ca70c883e0f0bb101e425a89e8624de51db2d2392593af6a84118090'')"
proof -
  have "hexlify (sha256 [97, 98, 99, 49, 50, 51]) =
          lit ''6ca13d52ca70c883e0f0bb101e425a89e8624de51db2d2392593af6a84118090''"
    by (simp add: sha256_abc123 hexlify_def hexdigit_def lit_def)
  with compute_commitment_Inr [OF encode_abc123] show ?thesis by simp
qed


lemma encode_message_0:
  "encode_utf8 (lit ''pxfv6pdY0X'' @ lit '':'' @ str_of_int 0) =
     Inr [112, 120, 102, 118, 54, 112, 100, 89, 48, 88, 58, 48]"
  by (simp add: lit_def utf8_char_def str_of_int_def digits.simps)



lemma roll_nonce_0:
  "roll_from_seeds (lit ''abc123'') (lit ''pxfv6pdY0X'') 0 = Inr (1509 / 100)"
  by (simp add: roll_from_seeds_Inr [OF encode_abc123 encode_message_0] hmac_nonce_0
      int_from_bytes_big_def)





section \<open>The commitment check (claims C1, C3, C4)\<close>




text \<open>
  Claim C3, as the code has it. For every string \<open>S\<close> without surrogate code points,
  \<open>compute_commitment S\<close> returns the lowercase hexadecimal text of the SHA-256 digest
  of the UTF-8 octets of \<open>S\<close>: the digest has 32 octets, the text has 64 characters,
  each a lowercase hexadecimal digit, and decoding the text gives the digest back.
\<close>

theorem compute_commitment_hex:
  assumes "surrogate_free S"
  shows "\<exists>b. encode_utf8 S = Inr b
           \<and> compute_commitment S = Inr (hexlify (sha256 b))
           \<and> length (sha256 b) = 32
           \<and> length (hexlify (sha256 b)) = 64
           \<and> list_all is_lower_hex (hexlify (sha256 b))
           \<and> unhexlify (hexlify (sha256 b)) = Inr (sha256 b)"
proof -
  from encode_utf8_total [OF assms] obtain b where b: "encode_utf8 S = Inr b" ..
  have "length (hexlify (sha256 b)) = 64"
    by (simp add: length_hexlify length_sha256)
  with b compute_commitment_Inr [OF b] show ?thesis
    by (auto simp: length_sha256 hexlify_lower_hex unhexlify_hexlify)
qed

text \<open>The commitment of \<open>abc123\<close>.\<close>

theorem compute_commitment_hex_witness:
  "surrogate_free (lit ''abc123'')
   \<and> compute_commitment (lit ''abc123'') =
       Inr (lit ''6ca13d52ca70c883e0f0bb101e425a89e8624de51db2d2392593af6a84118090'')
   \<and> length (lit ''6ca13d52ca70c883e0f0bb101e425a89e8624de51db2d2392593af6a84118090'') = 64
   \<and> list_all is_lower_hex
        (lit ''6ca13d52ca70c883e0f0bb101e425a89e8624de51db2d2392593af6a84118090'')"
proof -
  from compute_commitment_hex [OF surrogate_free_abc123] obtain b
    where "compute_commitment (lit ''abc123'') = Inr (hexlify (sha256 b))"
      and "length (hexlify (sha256 b)) = 64"
      and "list_all is_lower_hex (hexlify (sha256 b))"
    by blast
  with commitment_abc123 surrogate_free_abc123 show ?thesis by simp
qed

text \<open>
  Claim C3 as stated, total over all strings: on the string made of the lone
  surrogate \<open>U+D800\<close>, \<open>compute_commitment\<close> raises \<open>UnicodeEncodeError\<close>.
\<close>

theorem compute_commitment_total_counterexample:
  "compute_commitment [55296] = Inl UnicodeEncodeError"
  by (simp add: compute_commitment_def sha256_hex_def utf8_char_def is_surrogate_def)




section \<open>The roll (claims C2, C5, C6, C7)\<close>











section \<open>Nonce zero, the round trip and the effects of a run (claims C8, C10, C9)\<close>

text \<open>
  Claim C8, as the code has it. Nonce 0 is accepted: for seeds without surrogate code
  points, \<open>roll_from_seeds\<close> at nonce 0 returns a roll between 0.00 and 99.99, computed
  from the message that ends in \<open>:0\<close>.
\<close>

theorem nonce_zero_accepted:
  assumes "surrogate_free S" and "surrogate_free C"
  shows "\<exists>kb mb r.
           encode_utf8 S = Inr kb
         \<and> encode_utf8 (C @ lit '':0'') = Inr mb
         \<and> r = of_int (int_from_bytes_big (take 8 (hmac_sha256 kb mb)) mod 10000) / 100
         \<and> roll_from_seeds S C 0 = Inr r
         \<and> 0 \<le> r \<and> r \<le> 9999 / 100"
proof -
  have m: "lit '':'' @ str_of_int 0 = lit '':0''"
    by (simp add: str_of_int_def digits.simps lit_def)
  from roll_from_seeds_total [OF assms, of 0] obtain kb mb
    where kb: "encode_utf8 S = Inr kb"
      and mb: "encode_utf8 (C @ lit '':'' @ str_of_int 0) = Inr mb"
      and r: "roll_from_seeds S C 0 =
                Inr (of_int (int_from_bytes_big (take 8 (hmac_sha256 kb mb)) mod 10000) / 100)"
    by blast
  from mb m have mb': "encode_utf8 (C @ lit '':0'') = Inr mb"
    by simp
  have "0 \<le> (of_int (int_from_bytes_big (take 8 (hmac_sha256 kb mb)) mod 10000) / 100 :: rat)
      \<and> (of_int (int_from_bytes_big (take 8 (hmac_sha256 kb mb)) mod 10000) / 100 :: rat) \<le> 9999 / 100"
    by (rule hundredths_range)
  with kb mb' r show ?thesis by blast
qed

text \<open>Nonce 0 in the scenario of the specification: the roll is 15.09.\<close>

theorem nonce_zero_accepted_witness:
  "surrogate_free (lit ''abc123'') \<and> surrogate_free (lit ''pxfv6pdY0X'')
   \<and> encode_utf8 (lit ''pxfv6pdY0X'' @ lit '':0'') =
       Inr [112, 120, 102, 118, 54, 112, 100, 89, 48, 88, 58, 48]
   \<and> roll_from_seeds (lit ''abc123'') (lit ''pxfv6pdY0X'') 0 = Inr (1509 / 100)
   \<and> (0 :: rat) \<le> 1509 / 100 \<and> (1509 / 100 :: rat) \<le> 9999 / 100"
proof -
  from nonce_zero_accepted [OF surrogate_free_abc123 surrogate_free_client]
  obtain r where r: "roll_from_seeds (lit ''abc123'') (lit ''pxfv6pdY0X'') 0 = Inr r"
    and rng: "0 \<le> r \<and> r \<le> 9999 / 100"
    by blast
  from r have req: "r = 1509 / 100"
    by (simp only: roll_nonce_0 sum.inject)
  note rng' = rng [unfolded req]
  have e: "encode_utf8 (lit ''pxfv6pdY0X'' @ lit '':0'') =
       Inr [112, 120, 102, 118, 54, 112, 100, 89, 48, 88, 58, 48]"
    by (simp add: lit_def utf8_char_def)
  from surrogate_free_abc123 surrogate_free_client e roll_nonce_0 rng' show ?thesis
    by blast
qed

text \<open>
  Claim C8 as stated, for every client seed: with a surrogate in the client seed the call
  at nonce 0 raises \<open>UnicodeEncodeError\<close>.
\<close>

theorem nonce_zero_counterexample:
  "roll_from_seeds (lit ''abc123'') (lit ''pxfv'' @ [56448]) 0 = Inl UnicodeEncodeError"
proof -
  have "\<not> surrogate_free (lit ''pxfv'' @ [56448])"
    by (simp add: surrogate_free_def is_surrogate_def)
  then show ?thesis by (simp add: roll_from_seeds_Inl)
qed











end
